theory Spec2Isabelle
  imports Main
begin

section \<open>Python text\<close>

text \<open>
  A Python \<open>str\<close> is a sequence of Unicode code points, so a string is a list of
  natural numbers, one per code point. \<open>ascii\<close> writes a string of ASCII characters.
\<close>

type_synonym pystr = "nat list"

definition ascii :: "string \<Rightarrow> pystr" where
  "ascii s = map of_char s"

text \<open>
  The code points that \<open>str.strip()\<close> removes: Python's Unicode whitespace.
\<close>

definition is_space :: "nat \<Rightarrow> bool" where
  "is_space c =
     ((0x09 \<le> c \<and> c \<le> 0x0D) \<or> (0x1C \<le> c \<and> c \<le> 0x20) \<or> c = 0x85 \<or> c = 0xA0
      \<or> c = 0x1680 \<or> (0x2000 \<le> c \<and> c \<le> 0x200A) \<or> c = 0x2028 \<or> c = 0x2029
      \<or> c = 0x202F \<or> c = 0x205F \<or> c = 0x3000)"

definition strip :: "pystr \<Rightarrow> pystr" where
  "strip s = rev (dropWhile is_space (rev (dropWhile is_space s)))"

text \<open>
  \<open>str.lower()\<close> on the ASCII letters; every other code point is kept as it is
  (the case mappings of the rest of Unicode are outside this model).
\<close>

definition lower_cp :: "nat \<Rightarrow> nat" where
  "lower_cp c = (if 0x41 \<le> c \<and> c \<le> 0x5A then c + 0x20 else c)"

definition lower :: "pystr \<Rightarrow> pystr" where
  "lower s = map lower_cp s"

text \<open>\<open>s.replace(c, "")\<close> for a pattern \<open>c\<close> of one character.\<close>

definition remove_char :: "nat \<Rightarrow> pystr \<Rightarrow> pystr" where
  "remove_char c s = filter (\<lambda>x. x \<noteq> c) s"

text \<open>\<open>s.startswith(p)\<close>, \<open>s.endswith(p)\<close> and the substring test \<open>p in s\<close>.\<close>

fun startswith :: "pystr \<Rightarrow> pystr \<Rightarrow> bool" where
  "startswith s [] = True"
| "startswith [] (p # ps) = False"
| "startswith (c # cs) (p # ps) = (c = p \<and> startswith cs ps)"

definition endswith :: "pystr \<Rightarrow> pystr \<Rightarrow> bool" where
  "endswith s p = startswith (rev s) (rev p)"

fun py_in :: "pystr \<Rightarrow> pystr \<Rightarrow> bool" where
  "py_in p [] = (p = [])"
| "py_in p (c # cs) = (startswith (c # cs) p \<or> py_in p cs)"

section \<open>Normalisation\<close>

text \<open>
  The expression \<open>x.strip().lower().replace(" ", "").replace("\t", "")\<close> that
  \<open>load_classification_standards\<close> applies to the category names of a row and
  \<open>validate_classification_result\<close> to the names of a candidate result.
\<close>

definition normalize_category :: "pystr \<Rightarrow> pystr" where
  "normalize_category s = remove_char 0x09 (remove_char 0x20 (lower (strip s)))"

text \<open>\<open>KeywordMatcher._normalize_text\<close>, on a string argument.\<close>

definition normalize_text :: "pystr \<Rightarrow> pystr" where
  "normalize_text text =
     (if text = [] then []
      else remove_char 0x0A (remove_char 0x09 (remove_char 0x20 (strip (lower text)))))"

text \<open>
  A string is trimmed when \<open>strip\<close> has nothing to remove from it.
\<close>

definition trimmed :: "pystr \<Rightarrow> bool" where
  "trimmed s = (s = [] \<or> (\<not> is_space (hd s) \<and> \<not> is_space (last s)))"

section \<open>The taxonomy\<close>

text \<open>
  The value stored for a category pair: the tuple
  \<open>(original_main, original_sub, keywords, explanation, common_brands)\<close>.
\<close>

record entry =
  original_main :: pystr
  original_sub :: pystr
  keywords_cell :: pystr
  explanation :: pystr
  common_brands :: pystr

text \<open>
  \<open>classification_mapping\<close> is a Python dict from the normalised pair to the tuple.
  A dict keeps its keys in insertion order and a store to a key that is already there
  keeps the key's place, so the dict is an association list with \<open>dict_set\<close>;
  \<open>map_of\<close> reads it.
\<close>

type_synonym category_key = "pystr \<times> pystr"

type_synonym classification_mapping = "(category_key \<times> entry) list"

fun dict_set :: "('k \<times> 'v) list \<Rightarrow> 'k \<Rightarrow> 'v \<Rightarrow> ('k \<times> 'v) list" where
  "dict_set [] k v = [(k, v)]"
| "dict_set ((k', v') # d) k v = (if k' = k then (k, v) # d else (k', v') # dict_set d k v)"

text \<open>
  The exceptions of the source: the IndexError of \<open>cols[i]\<close> on a short table; the
  ValueErrors for no rule loaded, for an empty answer, for an answer that is not a JSON
  object, for an answer without the two fields, for an incomplete result and for a pair
  outside the taxonomy; any exception of the remote call; the JSONDecodeError of
  \<open>json.loads\<close>; and the AttributeError of \<open>None.get\<close>.
\<close>

datatype error =
    IndexError
  | NoRulesLoaded
  | ApiCallFailed
  | EmptyContent
  | JSONDecodeError
  | NotAnObject
  | MissingFields
  | IncompleteResult
  | UnknownCategory
  | AttributeError

subsection \<open>load_classification_standards\<close>

text \<open>
  A row of the table is the list of its cells in column order, each cell given by the
  text \<open>str(cell)\<close>; an empty cell of the sheet reads as \<open>nan\<close>.
  \<open>clean_cell\<close> is \<open>str(cell).strip()\<close> followed by the filter of the value
  \<open>'nan'\<close>.
\<close>

type_synonym row = "pystr list"

definition clean_cell :: "pystr \<Rightarrow> pystr" where
  "clean_cell c = (let s = strip c in if s \<noteq> ascii ''nan'' then s else [])"

text \<open>
  The body of the loop over the rows, on the loop's state: the current main category
  (\<open>None\<close> at the start) and the mapping built so far. \<open>cols[5]\<close> raises IndexError when
  the table has fewer than six columns.
\<close>

definition load_row ::
  "pystr option \<times> classification_mapping \<Rightarrow> row \<Rightarrow> error + pystr option \<times> classification_mapping" where
  "load_row st row =
     (if length row < 6 then Inl IndexError
      else
        let main_cat = clean_cell (row ! 1);
            sub_cat = clean_cell (row ! 2);
            kws = clean_cell (row ! 3);
            expl = clean_cell (row ! 4);
            brands = clean_cell (row ! 5);
            current_main_category = (if main_cat \<noteq> [] then Some main_cat else fst st)
        in case current_main_category of
             None \<Rightarrow> Inr (current_main_category, snd st)
           | Some cm \<Rightarrow>
               if cm \<noteq> [] \<and> sub_cat \<noteq> [] then
                 Inr (current_main_category,
                      dict_set (snd st) (normalize_category cm, normalize_category sub_cat)
                        \<lparr>original_main = cm, original_sub = sub_cat, keywords_cell = kws,
                         explanation = expl, common_brands = brands\<rparr>)
               else Inr (current_main_category, snd st))"

fun load_rows ::
  "pystr option \<times> classification_mapping \<Rightarrow> row list \<Rightarrow> error + pystr option \<times> classification_mapping" where
  "load_rows st [] = Inr st"
| "load_rows st (row # rows) =
     (case load_row st row of Inl e \<Rightarrow> Inl e | Inr st' \<Rightarrow> load_rows st' rows)"

definition load_classification_standards :: "row list \<Rightarrow> error + classification_mapping" where
  "load_classification_standards rows =
     (case load_rows (None, []) rows of
        Inl e \<Rightarrow> Inl e
      | Inr st \<Rightarrow> if snd st \<noteq> [] then Inr (snd st) else Inl NoRulesLoaded)"

text \<open>
  The specification's reading of the table, for comparison with the loop. The main
  category carried after some rows is the main-category cell of the last row that has
  one; row \<open>i\<close> contributes when a main category is carried at that row and the row's
  own sub-category cell is not empty.
\<close>

definition carried_main :: "row list \<Rightarrow> pystr option" where
  "carried_main rows =
     (case filter (\<lambda>c. c \<noteq> []) (map (\<lambda>r. clean_cell (r ! 1)) rows) of
        [] \<Rightarrow> None
      | c # cs \<Rightarrow> Some (last (c # cs)))"

definition row_contributes :: "row list \<Rightarrow> nat \<Rightarrow> bool" where
  "row_contributes rows i =
     (carried_main (take (Suc i) rows) \<noteq> None \<and> clean_cell (rows ! i ! 2) \<noteq> [])"

definition row_entry :: "row list \<Rightarrow> nat \<Rightarrow> category_key \<times> entry" where
  "row_entry rows i =
     (let cm = the (carried_main (take (Suc i) rows)); r = rows ! i
      in ((normalize_category cm, normalize_category (clean_cell (r ! 2))),
          \<lparr>original_main = cm, original_sub = clean_cell (r ! 2),
           keywords_cell = clean_cell (r ! 3), explanation = clean_cell (r ! 4),
           common_brands = clean_cell (r ! 5)\<rparr>))"

definition contributed_entries :: "row list \<Rightarrow> (category_key \<times> entry) list" where
  "contributed_entries rows =
     map (row_entry rows) (filter (row_contributes rows) [0..<length rows])"

definition dict_of :: "('k \<times> 'v) list \<Rightarrow> ('k \<times> 'v) list" where
  "dict_of kvs = foldl (\<lambda>d kv. dict_set d (fst kv) (snd kv)) [] kvs"

section \<open>KeywordMatcher\<close>

text \<open>
  \<open>re.split(r'[\<dots>]', s)\<close> on the three separators: the ideographic comma U+3001,
  the ASCII comma and the full-width comma U+FF0C.
\<close>

definition is_separator :: "nat \<Rightarrow> bool" where
  "is_separator c = (c = 0x3001 \<or> c = 0x2C \<or> c = 0xFF0C)"

fun re_split :: "pystr \<Rightarrow> pystr list" where
  "re_split [] = [[]]"
| "re_split (c # cs) =
     (if is_separator c then [] # re_split cs
      else case re_split cs of [] \<Rightarrow> [[c]] | w # ws \<Rightarrow> (c # w) # ws)"

text \<open>\<open>[kw.strip() for kw in re.split(\<dots>, s) if kw.strip()]\<close>\<close>

definition split_list :: "pystr \<Rightarrow> pystr list" where
  "split_list s = filter (\<lambda>w. w \<noteq> []) (map strip (re_split s))"

text \<open>A match is the triple \<open>(orig_main, orig_sub, common_brands)\<close>.\<close>

type_synonym match = "pystr \<times> pystr \<times> pystr"

text \<open>The loop over the keywords of one entry: one match is appended per matching keyword.\<close>

fun match_keyword_list :: "pystr \<Rightarrow> match \<Rightarrow> pystr list \<Rightarrow> match list" where
  "match_keyword_list normalized_name m [] = []"
| "match_keyword_list normalized_name m (keyword # kws) =
     (let normalized_keyword = normalize_text keyword
      in if normalized_keyword = [] then match_keyword_list normalized_name m kws
         else if py_in normalized_keyword normalized_name
              then m # match_keyword_list normalized_name m kws
              else match_keyword_list normalized_name m kws)"

definition match_entry :: "pystr \<Rightarrow> entry \<Rightarrow> match list" where
  "match_entry normalized_name e =
     (if keywords_cell e = [] then []
      else let keyword_list = split_list (keywords_cell e)
           in if keyword_list = [] then []
              else match_keyword_list normalized_name
                     (original_main e, original_sub e, common_brands e) keyword_list)"

fun match_entries :: "pystr \<Rightarrow> classification_mapping \<Rightarrow> match list" where
  "match_entries normalized_name [] = []"
| "match_entries normalized_name ((k, e) # items) =
     match_entry normalized_name e @ match_entries normalized_name items"

definition match_keywords :: "classification_mapping \<Rightarrow> pystr \<Rightarrow> match list" where
  "match_keywords mapping material_name =
     (if material_name = [] then []
      else let normalized_name = normalize_text material_name
           in if normalized_name = [] then [] else match_entries normalized_name mapping)"

text \<open>
  A material is a dict from field names to strings. The field names of the source:
\<close>

type_synonym material = "pystr \<rightharpoonup> pystr"

definition K_material_name :: pystr where
  "K_material_name = [0x7269, 0x6599, 0x540D, 0x79F0]"

definition K_drawing_model :: pystr where
  "K_drawing_model = [0x56FE, 0x53F7, 0x2F, 0x578B, 0x53F7]"

definition K_model :: pystr where
  "K_model = [0x578B, 0x53F7]"

definition K_class_brand :: pystr where
  "K_class_brand = [0x5206, 0x7C7B, 0x2F, 0x54C1, 0x724C]"

definition K_brand :: pystr where
  "K_brand = [0x54C1, 0x724C]"

definition K_supplier :: pystr where
  "K_supplier = [0x4F9B, 0x5E94, 0x5546]"

definition K_material :: pystr where
  "K_material = [0x6750, 0x6599]"

text \<open>\<open>d.get(k, "")\<close>, \<open>d.get(k, default)\<close> and \<open>a or b\<close> on strings.\<close>

definition get :: "material \<Rightarrow> pystr \<Rightarrow> pystr" where
  "get d k = (case d k of None \<Rightarrow> [] | Some v \<Rightarrow> v)"

definition get_default :: "material \<Rightarrow> pystr \<Rightarrow> pystr \<Rightarrow> pystr" where
  "get_default d k dflt = (case d k of None \<Rightarrow> dflt | Some v \<Rightarrow> v)"

definition py_or :: "pystr \<Rightarrow> pystr \<Rightarrow> pystr" where
  "py_or a b = (if a \<noteq> [] then a else b)"

text \<open>
  The loop that appends the matches whose pair is not yet in \<open>checked_categories\<close>;
  its state is \<open>(all_matches, checked_categories)\<close>.
\<close>

fun add_matches ::
  "match list \<Rightarrow> match list \<times> (pystr \<times> pystr) set \<Rightarrow> match list \<times> (pystr \<times> pystr) set" where
  "add_matches [] st = st"
| "add_matches (m # ms) st =
     (if (fst m, fst (snd m)) \<notin> snd st
      then add_matches ms (fst st @ [m], insert (fst m, fst (snd m)) (snd st))
      else add_matches ms st)"

definition match_by_multiple_fields :: "classification_mapping \<Rightarrow> material \<Rightarrow> match list" where
  "match_by_multiple_fields mapping material_data =
     (let st0 = ([], {});
          st1 = add_matches (match_keywords mapping (get material_data K_material_name)) st0;
          st2 = (if fst st1 = []
                 then add_matches
                        (match_keywords mapping
                           (py_or (get material_data K_drawing_model) (get material_data K_model)))
                        st1
                 else st1);
          st3 = (if fst st2 = []
                 then add_matches
                        (match_keywords mapping
                           (py_or (get material_data K_class_brand) (get material_data K_brand)))
                        st2
                 else st2);
          st4 = (if fst st3 = []
                 then add_matches (match_keywords mapping (get material_data K_material)) st3
                 else st3)
      in fst st4)"

text \<open>The loop over the brands of one candidate, left at the first brand that matches.\<close>

fun brand_list_matches :: "pystr \<Rightarrow> pystr list \<Rightarrow> bool" where
  "brand_list_matches normalized_material_brand [] = False"
| "brand_list_matches normalized_material_brand (brand # brands) =
     (let normalized_brand = normalize_text brand
      in if normalized_brand = [] then brand_list_matches normalized_material_brand brands
         else if py_in normalized_brand normalized_material_brand
                 \<or> py_in normalized_material_brand normalized_brand
              then True
              else brand_list_matches normalized_material_brand brands)"

fun brand_matches :: "pystr \<Rightarrow> match list \<Rightarrow> (pystr \<times> pystr) list" where
  "brand_matches normalized_material_brand [] = []"
| "brand_matches normalized_material_brand ((main_cat, sub_cat, brands) # ms) =
     (if brands = [] then brand_matches normalized_material_brand ms
      else let brand_list = split_list brands
           in if brand_list = [] then brand_matches normalized_material_brand ms
              else if brand_list_matches normalized_material_brand brand_list
                   then (main_cat, sub_cat) # brand_matches normalized_material_brand ms
                   else brand_matches normalized_material_brand ms)"

definition match_by_keywords_and_brand ::
  "classification_mapping \<Rightarrow> material \<Rightarrow> (pystr \<times> pystr) option" where
  "match_by_keywords_and_brand mapping material_data =
     (let keyword_matches = match_by_multiple_fields mapping material_data
      in case keyword_matches of
           [] \<Rightarrow> None
         | km # rest \<Rightarrow>
             if length keyword_matches = 1 then Some (fst km, fst (snd km))
             else
               let material_brand =
                     py_or (get material_data K_class_brand) (get material_data K_brand);
                   normalized_material_brand = normalize_text material_brand
               in if normalized_material_brand = [] then Some (fst km, fst (snd km))
                  else case brand_matches normalized_material_brand keyword_matches of
                         bm # _ \<Rightarrow> Some bm
                       | [] \<Rightarrow> Some (fst km, fst (snd km)))"

text \<open>
  The specification's words for the disambiguation, for comparison: a candidate is a
  brand match when the normalised brand of the record and one of the candidate's
  normalised brands are substrings of each other in either direction; with more than one
  candidate the first brand match is returned, and the first candidate when there is none.
\<close>

definition spec_brand_match :: "pystr \<Rightarrow> match \<Rightarrow> bool" where
  "spec_brand_match normalized_material_brand m =
     list_ex (\<lambda>b. py_in b normalized_material_brand \<or> py_in normalized_material_brand b)
       (map normalize_text (split_list (snd (snd m))))"

definition spec_disambiguate :: "pystr \<Rightarrow> match list \<Rightarrow> (pystr \<times> pystr) option" where
  "spec_disambiguate normalized_material_brand keyword_matches =
     (case keyword_matches of
        [] \<Rightarrow> None
      | km # rest \<Rightarrow>
          if rest = [] then Some (fst km, fst (snd km))
          else case filter (spec_brand_match normalized_material_brand) keyword_matches of
                 bm # _ \<Rightarrow> Some (fst bm, fst (snd bm))
               | [] \<Rightarrow> Some (fst km, fst (snd km)))"

section \<open>Classification results and their validation\<close>

text \<open>
  A value of a result dict: a string, \<open>None\<close>, or any other Python value, which is
  given by its truth value and its \<open>str()\<close> text.
\<close>

datatype pyval = PNone | PStr pystr | POther bool pystr

fun truthy :: "pyval \<Rightarrow> bool" where
  "truthy PNone = False"
| "truthy (PStr s) = (s \<noteq> [])"
| "truthy (POther b s) = b"

fun py_str :: "pyval \<Rightarrow> pystr" where
  "py_str PNone = ascii ''None''"
| "py_str (PStr s) = s"
| "py_str (POther b s) = s"

type_synonym result = "pystr \<rightharpoonup> pyval"

definition K_main_category :: pystr where
  "K_main_category = ascii ''main_category''"

definition K_sub_category :: pystr where
  "K_sub_category = ascii ''sub_category''"

definition K_classification_source :: pystr where
  "K_classification_source = ascii ''classification_source''"

text \<open>\<open>result.get(k)\<close>: \<open>None\<close> for a missing key.\<close>

definition result_get :: "result \<Rightarrow> pystr \<Rightarrow> pyval" where
  "result_get r k = (case r k of None \<Rightarrow> PNone | Some v \<Rightarrow> v)"

text \<open>
  \<open>validate_classification_result\<close> returns \<open>True\<close> and updates the dict it was given,
  or raises; the model returns the updated dict or the error.
\<close>

definition validate_classification_result ::
  "classification_mapping \<Rightarrow> result \<Rightarrow> error + result" where
  "validate_classification_result mapping result =
     (let main_category = result_get result K_main_category;
          sub_category = result_get result K_sub_category
      in if \<not> truthy main_category \<or> \<not> truthy sub_category then Inl IncompleteResult
         else
           let normalized_main = normalize_category (py_str main_category);
               normalized_sub = normalize_category (py_str sub_category)
           in case map_of mapping (normalized_main, normalized_sub) of
                None \<Rightarrow> Inl UnknownCategory
              | Some e \<Rightarrow>
                  Inr (result(K_main_category \<mapsto> PStr (original_main e),
                              K_sub_category \<mapsto> PStr (original_sub e))))"

section \<open>Reading the answer of the model\<close>

text \<open>
  \<open>re.findall(open .*? close, s, re.DOTALL)\<close> for two single characters: a match
  starts at an opening character and ends at the first closing character after it, and
  the search goes on behind the match. The scanner's state is \<open>None\<close> outside a match
  and the reversed text of the match so far inside one.
\<close>

fun findall_scan :: "nat \<Rightarrow> nat \<Rightarrow> pystr option \<Rightarrow> pystr \<Rightarrow> pystr list" where
  "findall_scan opn cls st [] = []"
| "findall_scan opn cls None (c # cs) =
     (if c = opn then findall_scan opn cls (Some [c]) cs else findall_scan opn cls None cs)"
| "findall_scan opn cls (Some acc) (c # cs) =
     (if c = cls then rev (c # acc) # findall_scan opn cls None cs
      else findall_scan opn cls (Some (c # acc)) cs)"

definition findall_lazy :: "nat \<Rightarrow> nat \<Rightarrow> pystr \<Rightarrow> pystr list" where
  "findall_lazy opn cls s = findall_scan opn cls None s"

text \<open>
  The lines from \<open>cleaned_content = content.strip()\<close> to the choice of \<open>json_part\<close>:
  the markdown fence and the \<open>json\<close> tag are removed, then the last match of
  \<open>\{.*?\}\<close> is taken, else the last match of \<open>\[.*?\]\<close>, else the cleaned text.
\<close>

definition fence :: pystr where
  "fence = [0x60, 0x60, 0x60]"

definition clean_content :: "pystr \<Rightarrow> pystr" where
  "clean_content content =
     (let cleaned_content = strip content
      in if startswith cleaned_content fence \<and> endswith cleaned_content fence then
           let inner = strip (drop 3 (take (length cleaned_content - 3) cleaned_content))
           in if startswith inner (ascii ''json'') then strip (drop 4 inner) else inner
         else cleaned_content)"

definition select_json_part :: "pystr \<Rightarrow> pystr" where
  "select_json_part cleaned_content =
     (let json_matches = findall_lazy 0x7B 0x7D cleaned_content
      in if json_matches \<noteq> [] then last json_matches
         else
           let json_matches = findall_lazy 0x5B 0x5D cleaned_content
           in if json_matches \<noteq> [] then last json_matches else cleaned_content)"

text \<open>
  \<open>json.loads\<close> is a parameter: it fails (\<open>None\<close>, for JSONDecodeError) or returns a
  dict or a value that is not a dict.
\<close>

datatype parsed = PDict result | PNotDict

type_synonym json_loads = "pystr \<Rightarrow> parsed option"

definition parse_response :: "json_loads \<Rightarrow> pystr \<Rightarrow> parsed option" where
  "parse_response loads content =
     (case loads content of
        Some v \<Rightarrow> Some v
      | None \<Rightarrow> loads (select_json_part (clean_content content)))"


section \<open>The remote call\<close>

text \<open>
  What one call of \<open>client.chat.completions.create\<close> does: it raises, or it returns the
  content of the first message (the empty string stands for every empty content).
  The service is a parameter that gives, for the number of calls made before and the
  prompt, the answer to the next call.
\<close>

datatype api_response = Raises | Content pystr

type_synonym service = "nat \<Rightarrow> pystr \<Rightarrow> api_response"

datatype pause = Backoff nat | RateLimit

text \<open>
  The state that the calls change: the counter of consecutive failures, the number of
  remote calls made so far, and the calls of \<open>time.sleep\<close> in order.
\<close>

record world =
  continuous_api_failures :: nat
  api_calls :: nat
  sleeps :: "pause list"

definition MAX_API_FAILURES :: nat where
  "MAX_API_FAILURES = 5"

text \<open>The body of the \<open>try\<close> of one attempt, after the remote call.\<close>

definition read_response :: "json_loads \<Rightarrow> api_response \<Rightarrow> error + result" where
  "read_response loads resp =
     (case resp of
        Raises \<Rightarrow> Inl ApiCallFailed
      | Content content \<Rightarrow>
          if content = [] then Inl EmptyContent
          else case parse_response loads content of
                 None \<Rightarrow> Inl JSONDecodeError
               | Some PNotDict \<Rightarrow> Inl NotAnObject
               | Some (PDict parsed_result) \<Rightarrow>
                   if parsed_result K_main_category = None \<or> parsed_result K_sub_category = None
                   then Inl MissingFields
                   else Inr parsed_result)"

text \<open>
  \<open>_call_deepseek_api\<close>: the loop \<open>for attempt in range(MAX_RETRIES)\<close>. When the range
  is empty the function reaches its end and returns \<open>None\<close>.
\<close>

function call_deepseek_api_from ::
  "nat \<Rightarrow> json_loads \<Rightarrow> service \<Rightarrow> pystr \<Rightarrow> nat \<Rightarrow> world \<Rightarrow> (error + result option) \<times> world" where
  "call_deepseek_api_from max_retries loads remote prompt attempt w =
     (if attempt < max_retries then
        let resp = remote (api_calls w) prompt;
            w1 = w\<lparr>api_calls := api_calls w + 1\<rparr>
        in case read_response loads resp of
             Inr parsed_result \<Rightarrow>
               (Inr (Some (parsed_result(K_classification_source \<mapsto> PStr (ascii ''deepseek_api'')))),
                w1\<lparr>continuous_api_failures := 0\<rparr>)
           | Inl e \<Rightarrow>
               let w2 = w1\<lparr>continuous_api_failures := continuous_api_failures w1 + 1\<rparr>
               in if continuous_api_failures w2 \<ge> MAX_API_FAILURES then (Inl e, w2)
                  else if attempt < max_retries - 1 then
                    call_deepseek_api_from max_retries loads remote prompt (attempt + 1)
                      (w2\<lparr>sleeps := sleeps w2 @ [Backoff (2 ^ attempt)]\<rparr>)
                  else (Inl e, w2)
      else (Inr None, w))"
  by pat_completeness auto
termination
  by (relation "measure (\<lambda>(max_retries, loads, remote, prompt, attempt, w). max_retries - attempt)")
     auto

declare call_deepseek_api_from.simps [simp del]

definition call_deepseek_api ::
  "nat \<Rightarrow> json_loads \<Rightarrow> service \<Rightarrow> pystr \<Rightarrow> world \<Rightarrow> (error + result option) \<times> world" where
  "call_deepseek_api max_retries loads remote prompt w =
     call_deepseek_api_from max_retries loads remote prompt 0 w"

section \<open>classify_material and classify_batch\<close>

text \<open>\<open>sep.join(xs)\<close>\<close>

fun join :: "pystr \<Rightarrow> pystr list \<Rightarrow> pystr" where
  "join sep [] = []"
| "join sep [x] = x"
| "join sep (x # y # ys) = x @ sep @ join sep (y # ys)"

text \<open>
  \<open>formatted_data\<close> and the text \<open>material_info\<close> made of its non-empty fields, in the
  order in which the dict was written.
\<close>

definition formatted_items :: "material \<Rightarrow> (pystr \<times> pystr) list" where
  "formatted_items material_data =
     [(K_model, get_default material_data K_drawing_model (get material_data K_model)),
      (K_brand, get_default material_data K_class_brand (get material_data K_brand)),
      (K_supplier, get material_data K_supplier),
      (K_material_name, get material_data K_material_name),
      (K_material, get material_data K_material)]"

definition format_material_info :: "(pystr \<times> pystr) list \<Rightarrow> pystr" where
  "format_material_info items =
     join (ascii '', '') (map (\<lambda>kv. fst kv @ ascii ''='' @ snd kv) (filter (\<lambda>kv. snd kv \<noteq> []) items))"

definition generate_prompt :: "pystr \<Rightarrow> pystr" where
  "generate_prompt material_info =
     [0x73B0, 0x5728, 0x8BF7, 0x5BF9, 0x4EE5, 0x4E0B, 0x7269, 0x6599, 0x8FDB, 0x884C, 0x5206,
      0x7C7B, 0xFF1A, 0x0A, 0x7269, 0x6599, 0x4FE1, 0x606F, 0xFF1A]
     @ material_info @ [0x0A, 0x5206, 0x7C7B, 0x7ED3, 0x679C, 0xFF1A]"

record config =
  MAX_RETRIES :: nat
  json_parser :: json_loads
  remote_service :: service

definition classify_material ::
  "config \<Rightarrow> classification_mapping \<Rightarrow> material \<Rightarrow> world \<Rightarrow> (error + result) \<times> world" where
  "classify_material cfg mapping material_data w =
     (let items = formatted_items material_data;
          formatted_data = map_of items;
          material_info = format_material_info items
      in case match_by_keywords_and_brand mapping formatted_data of
           Some local_match \<Rightarrow>
             (validate_classification_result mapping
                [K_main_category \<mapsto> PStr (fst local_match),
                 K_sub_category \<mapsto> PStr (snd local_match),
                 K_classification_source \<mapsto> PStr (ascii ''keyword_matcher'')],
              w)
         | None \<Rightarrow>
             (case call_deepseek_api (MAX_RETRIES cfg) (json_parser cfg) (remote_service cfg)
                     (generate_prompt material_info) w of
                (Inl e, w') \<Rightarrow> (Inl e, w')
              | (Inr None, w') \<Rightarrow> (Inl AttributeError, w')
              | (Inr (Some result), w') \<Rightarrow> (validate_classification_result mapping result, w')))"








section \<open>Field precedence, in the specification's words\<close>

text \<open>
  For comparison with \<open>match_by_multiple_fields\<close>: the fields are tried in order and the
  first list of matches that is not empty is the answer, with later matches of a pair
  \<open>(main, sub)\<close> that was seen before dropped.
\<close>

fun first_nonempty :: "'a list list \<Rightarrow> 'a list" where
  "first_nonempty [] = []"
| "first_nonempty (xs # xss) = (if xs \<noteq> [] then xs else first_nonempty xss)"

fun first_seen :: "match list \<Rightarrow> match list" where
  "first_seen [] = []"
| "first_seen (m # ms) =
     m # first_seen (filter (\<lambda>x. (fst x, fst (snd x)) \<noteq> (fst m, fst (snd m))) ms)"

section \<open>Invariant of a loaded taxonomy\<close>

text \<open>
  Every key is the normalised pair of the names stored under it, the stored names are
  not empty, and no key occurs twice.
\<close>

definition keyed_by_originals :: "classification_mapping \<Rightarrow> bool" where
  "keyed_by_originals mapping =
     (list_all (\<lambda>kv. fst kv = (normalize_category (original_main (snd kv)),
                                 normalize_category (original_sub (snd kv)))
                      \<and> original_main (snd kv) \<noteq> [] \<and> original_sub (snd kv) \<noteq> []) mapping
      \<and> distinct (map fst mapping))"

section \<open>A small taxonomy for concrete runs\<close>

text \<open>
  A table in the grouped layout: the second row has no main category of its own, the
  third names a main category and no sub-category, and the keywords of the first row
  are separated by a full-width comma.
\<close>

definition example_rows :: "row list" where
  "example_rows =
     [[ascii ''1'', ascii ''PLC'', ascii ''IO Module'', ascii ''plc'' @ [0xFF0C] @ ascii ''io'',
       ascii ''nan'', ascii ''nan''],
      [ascii ''2'', ascii ''nan'', ascii '' Cabinet '', ascii ''cabinet'', ascii ''nan'',
       ascii ''Rittal''],
      [ascii ''3'', ascii ''Robot'', ascii ''nan'', ascii ''nan'', ascii ''nan'', ascii ''nan''],
      [ascii ''4'', ascii ''nan'', ascii ''Six Axis'', ascii ''robot'', ascii ''nan'',
       ascii ''ABB, KUKA'']]"

definition example_mapping :: classification_mapping where
  "example_mapping =
     [((ascii ''plc'', ascii ''iomodule''),
       \<lparr>original_main = ascii ''PLC'', original_sub = ascii ''IO Module'',
        keywords_cell = ascii ''plc'' @ [0xFF0C] @ ascii ''io'', explanation = [],
        common_brands = []\<rparr>),
      ((ascii ''plc'', ascii ''cabinet''),
       \<lparr>original_main = ascii ''PLC'', original_sub = ascii ''Cabinet'',
        keywords_cell = ascii ''cabinet'', explanation = [],
        common_brands = ascii ''Rittal''\<rparr>),
      ((ascii ''robot'', ascii ''sixaxis''),
       \<lparr>original_main = ascii ''Robot'', original_sub = ascii ''Six Axis'',
        keywords_cell = ascii ''robot'', explanation = [],
        common_brands = ascii ''ABB, KUKA''\<rparr>)]"

text \<open>
  A remote service whose first five calls raise and whose later calls answer with two
  objects in a sentence, a parser that knows the second object and one array, and the
  state before any call.
\<close>

definition example_loads :: json_loads where
  "example_loads s =
     (if s = ascii ''{ok}''
      then Some (PDict [K_main_category \<mapsto> PStr (ascii ''plc''),
                        K_sub_category \<mapsto> PStr (ascii ''CABINET'')])
      else if s = ascii ''[]'' then Some PNotDict else None)"

definition example_service :: service where
  "example_service n prompt = (if n < 5 then Raises else Content (ascii ''no: {no} yes: {ok}.''))"

definition example_config :: config where
  "example_config =
     \<lparr>MAX_RETRIES = 3, json_parser = example_loads, remote_service = example_service\<rparr>"

definition example_world :: world where
  "example_world = \<lparr>continuous_api_failures = 0, api_calls = 0, sleeps = []\<rparr>"

section \<open>Properties of the text operations\<close>

lemma lower_cp_space: "is_space (lower_cp c) = is_space c"
  by (auto simp: lower_cp_def is_space_def)




lemma strip_trimmed: "trimmed (strip s)"
proof (cases "dropWhile is_space s")
  case Nil
  show ?thesis unfolding strip_def trimmed_def Nil by simp
next
  case (Cons x xs)
  then have x: "\<not> is_space x"
    using hd_dropWhile [of is_space s] by simp
  have "\<exists>zs. dropWhile is_space (rev xs @ [x]) = zs @ [x]"
    using x by (simp add: dropWhile_append)
  then obtain zs where zs: "dropWhile is_space (rev xs @ [x]) = zs @ [x]" ..
  have nz: "zs @ [x] \<noteq> []" by simp
  have "\<not> is_space (hd (zs @ [x]))"
    using hd_dropWhile [of is_space "rev xs @ [x]"] nz unfolding zs by blast
  then show ?thesis
    using Cons zs x by (cases zs) (simp_all add: strip_def trimmed_def last_rev)
qed

lemma strip_id: "trimmed s \<Longrightarrow> strip s = s"
proof (cases s)
  case Nil
  then show ?thesis by (simp add: strip_def)
next
  case (Cons x xs)
  assume "trimmed s"
  with Cons have a: "\<not> is_space x" and b: "\<not> is_space (last s)"
    by (auto simp: trimmed_def)
  from a Cons have 1: "dropWhile is_space s = s" by simp
  have "rev s \<noteq> []" and "hd (rev s) = last s" using Cons by (simp_all add: hd_rev)
  with b have 2: "dropWhile is_space (rev s) = rev s"
    by (simp add: dropWhile_eq_self_iff)
  show ?thesis by (simp add: strip_def 1 2)
qed

lemma lower_trimmed: "trimmed s \<Longrightarrow> trimmed (lower s)"
  by (cases s) (auto simp: trimmed_def lower_def lower_cp_space last_map hd_map)










section \<open>The loaded taxonomy and the matcher\<close>

lemma set_dict_set: "set (dict_set d k v) \<subseteq> insert (k, v) (set d)"
  by (induction d) (auto split: if_splits)

lemma keys_dict_set: "set (map fst (dict_set d k v)) = insert k (set (map fst d))"
  by (induction d) (force split: if_splits)+

lemma distinct_dict_set: "distinct (map fst d) \<Longrightarrow> distinct (map fst (dict_set d k v))"
proof (induction d)
  case Nil
  then show ?case by simp
next
  case (Cons p d)
  obtain k' v' where p: "p = (k', v')" by (cases p)
  show ?case
  proof (cases "k' = k")
    case True
    with Cons.prems p show ?thesis by simp
  next
    case False
    have "k' \<notin> set (map fst (dict_set d k v))"
      using Cons.prems p False unfolding keys_dict_set by simp
    with Cons p False show ?thesis by simp
  qed
qed

lemma map_of_dict_set: "map_of (dict_set d k v) = (map_of d)(k \<mapsto> v)"
  by (induction d) (auto simp: fun_eq_iff)

lemma keyed_by_originals_Nil: "keyed_by_originals []"
  by (simp add: keyed_by_originals_def)

lemma keyed_by_originals_dict_set:
  assumes "keyed_by_originals m"
    and "k = (normalize_category (original_main e), normalize_category (original_sub e))"
    and "original_main e \<noteq> []" and "original_sub e \<noteq> []"
  shows "keyed_by_originals (dict_set m k e)"
proof -
  have "\<forall>kv \<in> set (dict_set m k e).
          fst kv = (normalize_category (original_main (snd kv)),
                    normalize_category (original_sub (snd kv)))
          \<and> original_main (snd kv) \<noteq> [] \<and> original_sub (snd kv) \<noteq> []"
  proof
    fix kv assume "kv \<in> set (dict_set m k e)"
    then have "kv = (k, e) \<or> kv \<in> set m" using set_dict_set [of m k e] by auto
    then show "fst kv = (normalize_category (original_main (snd kv)),
                    normalize_category (original_sub (snd kv)))
          \<and> original_main (snd kv) \<noteq> [] \<and> original_sub (snd kv) \<noteq> []"
      using assms by (auto simp: keyed_by_originals_def list_all_iff)
  qed
  moreover have "distinct (map fst (dict_set m k e))"
    using assms(1) by (simp add: keyed_by_originals_def distinct_dict_set)
  ultimately show ?thesis by (simp add: keyed_by_originals_def list_all_iff)
qed

lemma load_row_keyed:
  assumes "keyed_by_originals (snd st)" and "load_row st row = Inr st'"
  shows "keyed_by_originals (snd st')"
  using assms
  by (auto simp: load_row_def Let_def split: if_splits option.splits
           intro!: keyed_by_originals_dict_set)

lemma load_rows_keyed:
  "keyed_by_originals (snd st) \<Longrightarrow> load_rows st rows = Inr st' \<Longrightarrow> keyed_by_originals (snd st')"
proof (induction rows arbitrary: st)
  case Nil
  then show ?case by simp
next
  case (Cons row rows)
  from Cons.prems(2) obtain st1 where 1: "load_row st row = Inr st1"
    and 2: "load_rows st1 rows = Inr st'"
    by (auto split: sum.splits)
  from load_row_keyed [OF Cons.prems(1) 1] Cons.IH 2 show ?case by blast
qed

lemma load_classification_standards_keyed:
  assumes "load_classification_standards rows = Inr mapping"
  shows "keyed_by_originals mapping"
proof -
  from assms obtain st where "load_rows (None, []) rows = Inr st" and "mapping = snd st"
    by (auto simp: load_classification_standards_def split: sum.splits if_splits)
  then show ?thesis using load_rows_keyed [of "(None, [])" rows st]
    by (simp add: keyed_by_originals_Nil)
qed

text \<open>The matcher returns names that are stored in the mapping.\<close>

lemma match_keyword_list_subset: "set (match_keyword_list nn m kws) \<subseteq> {m}"
  by (induction kws) (auto simp: Let_def)

lemma match_entry_subset:
  "set (match_entry nn e) \<subseteq> {(original_main e, original_sub e, common_brands e)}"
  using match_keyword_list_subset by (auto simp: match_entry_def Let_def)

lemma match_entries_stored:
  assumes "x \<in> set (match_entries nn items)"
  shows "\<exists>kv \<in> set items. x = (original_main (snd kv), original_sub (snd kv), common_brands (snd kv))"
  using assms
proof (induction items)
  case Nil
  then show ?case by simp
next
  case (Cons p items)
  obtain k e where p: "p = (k, e)" by (cases p)
  from Cons.prems p have "x \<in> set (match_entry nn e) \<or> x \<in> set (match_entries nn items)"
    by simp
  then show ?case
  proof
    assume "x \<in> set (match_entry nn e)"
    with match_entry_subset [of nn e] p show ?thesis by auto
  next
    assume "x \<in> set (match_entries nn items)"
    with Cons.IH show ?thesis by auto
  qed
qed

lemma match_keywords_stored:
  assumes "x \<in> set (match_keywords mapping name)"
  shows "\<exists>kv \<in> set mapping. x = (original_main (snd kv), original_sub (snd kv), common_brands (snd kv))"
  using assms match_entries_stored
  by (auto simp: match_keywords_def Let_def split: if_splits)

lemma add_matches_first_seen:
  "fst (add_matches ms st)
     = fst st @ first_seen (filter (\<lambda>x. (fst x, fst (snd x)) \<notin> snd st) ms)"
proof (induction ms arbitrary: st)
  case Nil
  then show ?case by simp
next
  case (Cons m ms)
  show ?case
  proof (cases "(fst m, fst (snd m)) \<in> snd st")
    case True
    then show ?thesis using Cons.IH [of st] by simp
  next
    case False
    have "filter (\<lambda>x. (fst x, fst (snd x)) \<notin> insert (fst m, fst (snd m)) (snd st)) ms
          = filter (\<lambda>x. (fst x, fst (snd x)) \<noteq> (fst m, fst (snd m)))
              (filter (\<lambda>x. (fst x, fst (snd x)) \<notin> snd st) ms)"
      by (auto intro: filter_cong)
    with False show ?thesis
      using Cons.IH [of "(fst st @ [m], insert (fst m, fst (snd m)) (snd st))"] by simp
  qed
qed

lemma add_matches_fresh: "fst (add_matches ms ([], {})) = first_seen ms"
  by (simp add: add_matches_first_seen)

lemma first_seen_Nil_iff: "first_seen ms = [] \<longleftrightarrow> ms = []"
  by (cases ms) simp_all

lemma add_matches_fresh_Nil: "fst (add_matches ms ([], {})) = [] \<Longrightarrow> add_matches ms ([], {}) = ([], {})"
  by (simp add: add_matches_fresh first_seen_Nil_iff)

lemma match_by_multiple_fields_precedence:
  "match_by_multiple_fields mapping material_data =
     first_seen (first_nonempty
       [match_keywords mapping (get material_data K_material_name),
        match_keywords mapping (py_or (get material_data K_drawing_model) (get material_data K_model)),
        match_keywords mapping (py_or (get material_data K_class_brand) (get material_data K_brand)),
        match_keywords mapping (get material_data K_material)])"
proof -
  let ?a = "match_keywords mapping (get material_data K_material_name)"
  let ?b = "match_keywords mapping (py_or (get material_data K_drawing_model) (get material_data K_model))"
  let ?c = "match_keywords mapping (py_or (get material_data K_class_brand) (get material_data K_brand))"
  let ?d = "match_keywords mapping (get material_data K_material)"
  show ?thesis
  proof (cases "?a = []")
    case a: False
    then have "fst (add_matches ?a ([], {})) \<noteq> []"
      by (simp add: add_matches_fresh first_seen_Nil_iff)
    then show ?thesis using a
      by (simp add: match_by_multiple_fields_def Let_def add_matches_fresh)
  next
    case a: True
    show ?thesis
    proof (cases "?b = []")
      case b: False
      then have "fst (add_matches ?b ([], {})) \<noteq> []"
        by (simp add: add_matches_fresh first_seen_Nil_iff)
      then show ?thesis using a b
        by (simp add: match_by_multiple_fields_def Let_def add_matches_fresh)
    next
      case b: True
      show ?thesis
      proof (cases "?c = []")
        case c: False
        then have "fst (add_matches ?c ([], {})) \<noteq> []"
          by (simp add: add_matches_fresh first_seen_Nil_iff)
        then show ?thesis using a b c
          by (simp add: match_by_multiple_fields_def Let_def add_matches_fresh)
      next
        case c: True
        then show ?thesis using a b
          by (simp add: match_by_multiple_fields_def Let_def add_matches_fresh)
      qed
    qed
  qed
qed

lemma set_first_seen: "set (first_seen ms) \<subseteq> set ms"
proof (induction ms rule: first_seen.induct)
  case 1
  then show ?case by simp
next
  case (2 m ms)
  then show ?case by auto
qed

lemma set_first_nonempty: "set (first_nonempty xss) \<subseteq> \<Union> (set ` set xss)"
  by (induction xss) auto

lemma match_by_multiple_fields_stored:
  assumes "x \<in> set (match_by_multiple_fields mapping data)"
  shows "\<exists>kv \<in> set mapping. x = (original_main (snd kv), original_sub (snd kv), common_brands (snd kv))"
proof -
  let ?xss = "[match_keywords mapping (get data K_material_name),
        match_keywords mapping (py_or (get data K_drawing_model) (get data K_model)),
        match_keywords mapping (py_or (get data K_class_brand) (get data K_brand)),
        match_keywords mapping (get data K_material)]"
  from assms have "x \<in> set (first_nonempty ?xss)"
    unfolding match_by_multiple_fields_precedence using set_first_seen by blast
  then have "x \<in> \<Union> (set ` set ?xss)"
    using set_first_nonempty [of ?xss] by blast
  then have "\<exists>name. x \<in> set (match_keywords mapping name)"
    by auto
  then show ?thesis using match_keywords_stored by blast
qed

lemma brand_matches_subset:
  "set (brand_matches nmb ms) \<subseteq> (\<lambda>m. (fst m, fst (snd m))) ` set ms"
proof (induction ms)
  case Nil
  then show ?case by simp
next
  case (Cons m ms)
  obtain a b c where "m = (a, b, c)" by (cases m)
  with Cons show ?case by (auto simp: Let_def)
qed

lemma match_by_keywords_and_brand_from_matches:
  assumes "match_by_keywords_and_brand mapping data = Some p"
  shows "p \<in> (\<lambda>m. (fst m, fst (snd m))) ` set (match_by_multiple_fields mapping data)"
proof -
  let ?km = "match_by_multiple_fields mapping data"
  obtain km rest where km: "?km = km # rest"
    using assms by (cases ?km) (auto simp: match_by_keywords_and_brand_def)
  let ?nmb = "normalize_text (py_or (get data K_class_brand) (get data K_brand))"
  have "p = (fst km, fst (snd km)) \<or> p \<in> set (brand_matches ?nmb ?km)"
    using assms km
    by (auto simp: match_by_keywords_and_brand_def Let_def split: if_splits list.splits)
  then show ?thesis
    using brand_matches_subset [of ?nmb ?km] km by auto
qed

lemma match_by_keywords_and_brand_stored:
  assumes "match_by_keywords_and_brand mapping data = Some p"
  shows "\<exists>kv \<in> set mapping. p = (original_main (snd kv), original_sub (snd kv))"
proof -
  from match_by_keywords_and_brand_from_matches [OF assms]
  obtain m where m: "m \<in> set (match_by_multiple_fields mapping data)" and p: "p = (fst m, fst (snd m))"
    by auto
  from match_by_multiple_fields_stored [OF m]
  obtain kv where "kv \<in> set mapping"
    and "m = (original_main (snd kv), original_sub (snd kv), common_brands (snd kv))" by blast
  with p show ?thesis by (intro bexI [of _ kv]) simp_all
qed

lemma K_distinct:
  "K_main_category \<noteq> K_sub_category" "K_main_category \<noteq> K_classification_source"
  "K_sub_category \<noteq> K_classification_source"
  by (simp_all add: K_main_category_def K_sub_category_def K_classification_source_def ascii_def)

lemma validate_stored:
  assumes "keyed_by_originals mapping" and "(k, e) \<in> set mapping"
    and "result K_main_category = Some (PStr (original_main e))"
    and "result K_sub_category = Some (PStr (original_sub e))"
  shows "validate_classification_result mapping result = Inr result"
proof -
  from assms(1,2) have k: "k = (normalize_category (original_main e), normalize_category (original_sub e))"
    and ne: "original_main e \<noteq> []" "original_sub e \<noteq> []"
    and d: "distinct (map fst mapping)"
    by (auto simp: keyed_by_originals_def list_all_iff)
  from d assms(2) have "map_of mapping k = Some e" by simp
  moreover have "result(K_main_category \<mapsto> PStr (original_main e),
                        K_sub_category \<mapsto> PStr (original_sub e)) = result"
    using assms(3,4) by (auto simp: fun_eq_iff)
  ultimately show ?thesis
    using assms(3,4) ne k
    by (simp add: validate_classification_result_def result_get_def Let_def)
qed

section \<open>Concrete runs\<close>

lemmas text_eval =
  ascii_def strip_def is_space_def lower_def lower_cp_def remove_char_def
  normalize_category_def normalize_text_def clean_cell_def

lemmas matcher_eval =
  match_by_keywords_and_brand_def match_by_multiple_fields_def match_keywords_def
  match_entry_def split_list_def is_separator_def get_def get_default_def py_or_def
  K_material_name_def K_drawing_model_def K_model_def K_class_brand_def K_brand_def
  K_supplier_def K_material_def Let_def

lemmas result_eval =
  result_get_def K_main_category_def K_sub_category_def K_classification_source_def

lemma load_example: "load_classification_standards example_rows = Inr example_mapping"
  by (simp add: load_classification_standards_def example_rows_def example_mapping_def
        load_row_def Let_def text_eval)

section \<open>Validation\<close>

text \<open>
  Claim C1. When both fields of a candidate result are non-empty and their normalised
  pair is a key of the mapping, \<open>validate_classification_result\<close> succeeds and the result
  it leaves has both fields overwritten with the names stored under that key; every
  other field is kept. In a mapping with the invariant of a loaded taxonomy the names
  written differ from the candidate's only in what normalisation removes: case and
  white space.
\<close>

theorem C1_validate_canonicalizes:
  assumes "truthy (result_get result K_main_category)"
    and "truthy (result_get result K_sub_category)"
    and "map_of mapping
           (normalize_category (py_str (result_get result K_main_category)),
            normalize_category (py_str (result_get result K_sub_category))) = Some e"
  shows "validate_classification_result mapping result =
           Inr (result(K_main_category \<mapsto> PStr (original_main e),
                       K_sub_category \<mapsto> PStr (original_sub e)))
         \<and> (keyed_by_originals mapping \<longrightarrow>
               normalize_category (original_main e)
                 = normalize_category (py_str (result_get result K_main_category))
               \<and> normalize_category (original_sub e)
                 = normalize_category (py_str (result_get result K_sub_category)))"
proof
  show "validate_classification_result mapping result =
           Inr (result(K_main_category \<mapsto> PStr (original_main e),
                       K_sub_category \<mapsto> PStr (original_sub e)))"
    using assms by (simp add: validate_classification_result_def Let_def)
next
  let ?k = "(normalize_category (py_str (result_get result K_main_category)),
            normalize_category (py_str (result_get result K_sub_category)))"
  show "keyed_by_originals mapping \<longrightarrow>
               normalize_category (original_main e)
                 = normalize_category (py_str (result_get result K_main_category))
               \<and> normalize_category (original_sub e)
                 = normalize_category (py_str (result_get result K_sub_category))"
  proof
    assume inv: "keyed_by_originals mapping"
    from assms(3) have "(?k, e) \<in> set mapping" by (rule map_of_SomeD)
    with inv have "?k = (normalize_category (original_main e), normalize_category (original_sub e))"
      by (auto simp: keyed_by_originals_def list_all_iff)
    then show "normalize_category (original_main e)
                 = normalize_category (py_str (result_get result K_main_category))
               \<and> normalize_category (original_sub e)
                 = normalize_category (py_str (result_get result K_sub_category))"
      by simp
  qed
qed

theorem C1_witness:
  "truthy (result_get [K_main_category \<mapsto> PStr (ascii '' Plc ''),
                       K_sub_category \<mapsto> PStr (ascii ''io  MODULE''),
                       K_classification_source \<mapsto> PStr (ascii ''deepseek_api'')] K_main_category)
   \<and> keyed_by_originals example_mapping
   \<and> validate_classification_result example_mapping
        [K_main_category \<mapsto> PStr (ascii '' Plc ''),
         K_sub_category \<mapsto> PStr (ascii ''io  MODULE''),
         K_classification_source \<mapsto> PStr (ascii ''deepseek_api'')]
      = Inr [K_main_category \<mapsto> PStr (ascii ''PLC''),
             K_sub_category \<mapsto> PStr (ascii ''IO Module''),
             K_classification_source \<mapsto> PStr (ascii ''deepseek_api'')]
   \<and> normalize_category (ascii ''IO Module'') = normalize_category (ascii ''io  MODULE'')"
proof -
  let ?r = "[K_main_category \<mapsto> PStr (ascii '' Plc ''),
             K_sub_category \<mapsto> PStr (ascii ''io  MODULE''),
             K_classification_source \<mapsto> PStr (ascii ''deepseek_api'')]"
  let ?e = "\<lparr>original_main = ascii ''PLC'', original_sub = ascii ''IO Module'',
        keywords_cell = ascii ''plc'' @ [0xFF0C] @ ascii ''io'', explanation = [],
        common_brands = []\<rparr>"
  have 1: "truthy (result_get ?r K_main_category)"
    by (simp add: result_eval ascii_def)
  have 2: "truthy (result_get ?r K_sub_category)"
    by (simp add: result_eval ascii_def)
  have 3: "map_of example_mapping
           (normalize_category (py_str (result_get ?r K_main_category)),
            normalize_category (py_str (result_get ?r K_sub_category))) = Some ?e"
    by (simp add: result_eval example_mapping_def text_eval)
  have 4: "?r(K_main_category \<mapsto> PStr (original_main ?e), K_sub_category \<mapsto> PStr (original_sub ?e))
           = [K_main_category \<mapsto> PStr (ascii ''PLC''),
             K_sub_category \<mapsto> PStr (ascii ''IO Module''),
             K_classification_source \<mapsto> PStr (ascii ''deepseek_api'')]"
    by (auto simp: fun_eq_iff result_eval ascii_def)
  have 5: "keyed_by_originals example_mapping"
    using load_example by (rule load_classification_standards_keyed)
  have 6: "py_str (result_get ?r K_sub_category) = ascii ''io  MODULE''"
    by (simp add: result_eval ascii_def)
  note c = C1_validate_canonicalizes [OF 1 2 3]
  from c [THEN conjunct2] 5
  have "normalize_category (ascii ''IO Module'') = normalize_category (ascii ''io  MODULE'')"
    unfolding 6 by simp
  with c [THEN conjunct1] 1 5 show ?thesis unfolding 4 by simp
qed

text \<open>
  Claim C10. For a taxonomy that \<open>load_classification_standards\<close> returned and any
  record, a pair found by the keyword matcher passes validation unchanged:
  \<open>classify_material\<close> returns it with the source \<open>keyword_matcher\<close>, and the state of
  the remote calls is not touched.
\<close>

theorem C10_local_match_validates:
  assumes "load_classification_standards rows = Inr mapping"
    and "match_by_keywords_and_brand mapping (map_of (formatted_items material_data)) = Some local_match"
  shows "classify_material cfg mapping material_data w =
           (Inr [K_main_category \<mapsto> PStr (fst local_match),
                 K_sub_category \<mapsto> PStr (snd local_match),
                 K_classification_source \<mapsto> PStr (ascii ''keyword_matcher'')], w)"
proof -
  let ?r = "[K_main_category \<mapsto> PStr (fst local_match),
             K_sub_category \<mapsto> PStr (snd local_match),
             K_classification_source \<mapsto> PStr (ascii ''keyword_matcher'')]"
  have inv: "keyed_by_originals mapping"
    using assms(1) by (rule load_classification_standards_keyed)
  from match_by_keywords_and_brand_stored [OF assms(2)]
  obtain k e where ke: "(k, e) \<in> set mapping"
    and lm: "local_match = (original_main e, original_sub e)" by auto
  have "validate_classification_result mapping ?r = Inr ?r"
    using inv ke
  proof (rule validate_stored)
    show "?r K_main_category = Some (PStr (original_main e))"
      using K_distinct lm by simp
    show "?r K_sub_category = Some (PStr (original_sub e))"
      using K_distinct lm by simp
  qed
  then show ?thesis
    using assms(2) by (simp add: classify_material_def Let_def)
qed

theorem C10_witness:
  "load_classification_standards example_rows = Inr example_mapping
   \<and> classify_material example_config example_mapping
        [K_material_name \<mapsto> ascii ''plc cabinet'', K_class_brand \<mapsto> ascii ''Rittal GmbH'']
        example_world
      = (Inr [K_main_category \<mapsto> PStr (ascii ''PLC''),
              K_sub_category \<mapsto> PStr (ascii ''Cabinet''),
              K_classification_source \<mapsto> PStr (ascii ''keyword_matcher'')], example_world)"
proof -
  let ?d = "[K_material_name \<mapsto> ascii ''plc cabinet'', K_class_brand \<mapsto> ascii ''Rittal GmbH'']"
  have 1: "match_by_keywords_and_brand example_mapping (map_of (formatted_items ?d))
           = Some (ascii ''PLC'', ascii ''Cabinet'')"
    by (simp add: formatted_items_def example_mapping_def matcher_eval text_eval)
  show ?thesis
    using C10_local_match_validates [OF load_example 1, of example_config example_world]
      load_example by simp
qed

section \<open>Field precedence\<close>

text \<open>
  Claim C4. \<open>match_by_multiple_fields\<close> tries the material name, then the model, then
  the brand, then the raw material, and answers with the matches of the first field
  that has any, each pair \<open>(main, sub)\<close> once in the order of first appearance; when the
  material name has a match the answer is made of its matches alone, whatever the other
  fields hold.
\<close>

theorem C4_field_precedence:
  "match_by_multiple_fields mapping material_data =
     first_seen (first_nonempty
       [match_keywords mapping (get material_data K_material_name),
        match_keywords mapping (py_or (get material_data K_drawing_model) (get material_data K_model)),
        match_keywords mapping (py_or (get material_data K_class_brand) (get material_data K_brand)),
        match_keywords mapping (get material_data K_material)])
   \<and> (match_keywords mapping (get material_data K_material_name) \<noteq> [] \<longrightarrow>
        match_by_multiple_fields mapping material_data =
          first_seen (match_keywords mapping (get material_data K_material_name)))"
  by (simp add: match_by_multiple_fields_precedence)

theorem C4_witness:
  "match_keywords example_mapping (ascii ''PLC rack'') = [(ascii ''PLC'', ascii ''IO Module'', [])]
   \<and> match_keywords example_mapping (ascii ''robot arm'')
       = [(ascii ''Robot'', ascii ''Six Axis'', ascii ''ABB, KUKA'')]
   \<and> match_by_multiple_fields example_mapping
        [K_material_name \<mapsto> ascii ''PLC rack'', K_model \<mapsto> ascii ''robot arm'']
       = [(ascii ''PLC'', ascii ''IO Module'', [])]"
proof -
  let ?d = "[K_material_name \<mapsto> ascii ''PLC rack'', K_model \<mapsto> ascii ''robot arm'']"
  have 1: "match_keywords example_mapping (ascii ''PLC rack'') = [(ascii ''PLC'', ascii ''IO Module'', [])]"
    by (simp add: example_mapping_def matcher_eval text_eval)
  have 2: "match_keywords example_mapping (ascii ''robot arm'')
       = [(ascii ''Robot'', ascii ''Six Axis'', ascii ''ABB, KUKA'')]"
    by (simp add: example_mapping_def matcher_eval text_eval)
  have 3: "get ?d K_material_name = ascii ''PLC rack''"
    by (simp add: get_def K_material_name_def K_model_def)
  from C4_field_precedence [of example_mapping ?d]
  have "match_by_multiple_fields example_mapping ?d
          = first_seen (match_keywords example_mapping (get ?d K_material_name))"
    unfolding 3 1 by simp
  then show ?thesis unfolding 3 1 using 1 2 by simp
qed

section \<open>Brand disambiguation\<close>

lemma split_list_trimmed: "b \<in> set (split_list s) \<Longrightarrow> trimmed b \<and> b \<noteq> []"
  by (auto simp: split_list_def strip_trimmed)

lemma normalize_text_nonempty:
  assumes "trimmed b" and "b \<noteq> []"
  shows "normalize_text b \<noteq> []"
proof -
  from assms have h: "\<not> is_space (hd b)" by (simp add: trimmed_def)
  have "trimmed (lower b)" using assms(1) by (rule lower_trimmed)
  then have s: "strip (lower b) = lower b" by (rule strip_id)
  from assms(2) have "hd (lower b) = lower_cp (hd b)" "lower b \<noteq> []"
    by (simp_all add: lower_def hd_map)
  with h have "\<not> is_space (hd (lower b))" by (simp add: lower_cp_space)
  then have "hd (lower b) \<noteq> 0x20" "hd (lower b) \<noteq> 0x09" "hd (lower b) \<noteq> 0x0A"
    by (auto simp: is_space_def)
  moreover have "hd (lower b) \<in> set (lower b)" using \<open>lower b \<noteq> []\<close> by simp
  ultimately have "hd (lower b) \<in> set (remove_char 0x0A (remove_char 0x09 (remove_char 0x20 (lower b))))"
    by (simp add: remove_char_def)
  then show ?thesis using assms(2) s
    by (auto simp: normalize_text_def)
qed

lemma brand_list_matches_ex:
  assumes "\<forall>b \<in> set bl. normalize_text b \<noteq> []"
  shows "brand_list_matches nmb bl
           = list_ex (\<lambda>b. py_in b nmb \<or> py_in nmb b) (map normalize_text bl)"
  using assms by (induction bl) (auto simp: Let_def)

lemma brand_matches_filter:
  "brand_matches nmb ms = map (\<lambda>m. (fst m, fst (snd m))) (filter (spec_brand_match nmb) ms)"
proof (induction ms)
  case Nil
  then show ?case by simp
next
  case (Cons m ms)
  obtain a b c where m: "m = (a, b, c)" by (cases m)
  have ne: "\<forall>x \<in> set (split_list c). normalize_text x \<noteq> []"
    using split_list_trimmed normalize_text_nonempty by blast
  have e: "c = [] \<Longrightarrow> split_list c = []"
    by (simp add: split_list_def strip_def)
  show ?case
    using Cons m e brand_list_matches_ex [OF ne, of nmb]
    by (auto simp: Let_def spec_brand_match_def)
qed

text \<open>
  Claim C5, as the code has it. \<open>match_by_keywords_and_brand\<close> answers whenever the
  keyword pass found a candidate. With one candidate it returns it. With more than one
  and a record whose normalised brand is empty it returns the first candidate without
  looking at the brands of the candidates; with a normalised brand that is not empty it
  returns the first candidate one of whose normalised brands contains the record's
  brand or is contained in it, and the first candidate when there is none.
\<close>

theorem C5_brand_disambiguation:
  "match_by_keywords_and_brand mapping material_data =
     (let keyword_matches = match_by_multiple_fields mapping material_data;
          brand = normalize_text (py_or (get material_data K_class_brand) (get material_data K_brand))
      in if brand = []
         then (case keyword_matches of [] \<Rightarrow> None | km # rest \<Rightarrow> Some (fst km, fst (snd km)))
         else spec_disambiguate brand keyword_matches)
   \<and> (match_by_keywords_and_brand mapping material_data = None) =
       (match_by_multiple_fields mapping material_data = [])"
proof -
  let ?km = "match_by_multiple_fields mapping material_data"
  let ?b = "normalize_text (py_or (get material_data K_class_brand) (get material_data K_brand))"
  show ?thesis
  proof (cases ?km)
    case Nil
    then show ?thesis
      by (simp add: match_by_keywords_and_brand_def spec_disambiguate_def Let_def)
  next
    case (Cons km rest)
    show ?thesis
    proof (cases "rest = []")
      case True
      with Cons show ?thesis
        by (simp add: match_by_keywords_and_brand_def spec_disambiguate_def Let_def)
    next
      case False
      with Cons have l: "length ?km \<noteq> 1" by simp
      have "brand_matches ?b (km # rest)
              = map (\<lambda>m. (fst m, fst (snd m))) (filter (spec_brand_match ?b) (km # rest))"
        by (rule brand_matches_filter)
      with Cons False l show ?thesis
        by (auto simp: match_by_keywords_and_brand_def spec_disambiguate_def Let_def
                 split: list.splits)
    qed
  qed
qed

theorem C5_witness:
  "match_by_keywords_and_brand example_mapping
     [K_material_name \<mapsto> ascii ''plc cabinet'', K_brand \<mapsto> ascii ''Rittal GmbH'']
   = spec_disambiguate (ascii ''rittalgmbh'')
       [(ascii ''PLC'', ascii ''IO Module'', []), (ascii ''PLC'', ascii ''Cabinet'', ascii ''Rittal'')]
   \<and> match_by_keywords_and_brand example_mapping
     [K_material_name \<mapsto> ascii ''plc cabinet'', K_brand \<mapsto> ascii ''Rittal GmbH'']
   = Some (ascii ''PLC'', ascii ''Cabinet'')"
proof -
  let ?d = "[K_material_name \<mapsto> ascii ''plc cabinet'', K_brand \<mapsto> ascii ''Rittal GmbH'']"
  have 1: "match_by_multiple_fields example_mapping ?d
           = [(ascii ''PLC'', ascii ''IO Module'', []), (ascii ''PLC'', ascii ''Cabinet'', ascii ''Rittal'')]"
    by (simp add: example_mapping_def matcher_eval text_eval)
  have 2: "normalize_text (py_or (get ?d K_class_brand) (get ?d K_brand)) = ascii ''rittalgmbh''"
    by (simp add: matcher_eval text_eval)
  have 3: "ascii ''rittalgmbh'' \<noteq> []" by (simp add: ascii_def)
  have 4: "spec_disambiguate (ascii ''rittalgmbh'')
       [(ascii ''PLC'', ascii ''IO Module'', []), (ascii ''PLC'', ascii ''Cabinet'', ascii ''Rittal'')]
     = Some (ascii ''PLC'', ascii ''Cabinet'')"
    by (simp add: spec_disambiguate_def spec_brand_match_def split_list_def is_separator_def text_eval)
  show ?thesis
    using C5_brand_disambiguation [of example_mapping ?d] 3 unfolding 1 2 Let_def 4 by simp
qed

theorem C5_counterexample:
  "match_by_keywords_and_brand example_mapping [K_material_name \<mapsto> ascii ''plc cabinet'']
     = Some (ascii ''PLC'', ascii ''IO Module'')
   \<and> spec_disambiguate
        (normalize_text (py_or (get [K_material_name \<mapsto> ascii ''plc cabinet''] K_class_brand)
                               (get [K_material_name \<mapsto> ascii ''plc cabinet''] K_brand)))
        (match_by_multiple_fields example_mapping [K_material_name \<mapsto> ascii ''plc cabinet''])
     = Some (ascii ''PLC'', ascii ''Cabinet'')"
  by (simp add: example_mapping_def matcher_eval text_eval spec_disambiguate_def spec_brand_match_def)

section \<open>Loading the table\<close>

lemma load_rows_append:
  "load_rows st (xs @ ys) = (case load_rows st xs of Inl e \<Rightarrow> Inl e | Inr st' \<Rightarrow> load_rows st' ys)"
  by (induction xs arbitrary: st) (auto split: sum.splits)

lemma carried_main_Nil: "carried_main [] = None"
  by (simp add: carried_main_def)

lemma carried_main_alt:
  "carried_main rows =
     (if filter (\<lambda>c. c \<noteq> []) (map (\<lambda>r. clean_cell (r ! 1)) rows) = [] then None
      else Some (last (filter (\<lambda>c. c \<noteq> []) (map (\<lambda>r. clean_cell (r ! 1)) rows))))"
  unfolding carried_main_def by (simp split: list.splits)

lemma carried_main_snoc:
  "carried_main (rows @ [r]) =
     (if clean_cell (r ! 1) \<noteq> [] then Some (clean_cell (r ! 1)) else carried_main rows)"
  by (simp add: carried_main_alt)

lemma carried_main_nonempty: "carried_main rows = Some c \<Longrightarrow> c \<noteq> []"
proof -
  assume a: "carried_main rows = Some c"
  let ?cs = "filter (\<lambda>c. c \<noteq> []) (map (\<lambda>r. clean_cell (r ! 1)) rows)"
  from a have "?cs \<noteq> []" and "c = last ?cs"
    by (auto simp: carried_main_def split: list.splits)
  then have "c \<in> set ?cs" using last_in_set by blast
  then show ?thesis by simp
qed

lemma dict_of_snoc: "dict_of (kvs @ [kv]) = dict_set (dict_of kvs) (fst kv) (snd kv)"
  by (simp add: dict_of_def)

lemma row_contributes_prefix:
  "i < length rows \<Longrightarrow> row_contributes (rows @ [r]) i = row_contributes rows i"
  by (simp add: row_contributes_def nth_append)

lemma row_entry_prefix:
  "i < length rows \<Longrightarrow> row_entry (rows @ [r]) i = row_entry rows i"
  by (simp add: row_entry_def nth_append)

lemma contributed_entries_snoc:
  "contributed_entries (rows @ [r]) =
     contributed_entries rows @
       (if row_contributes (rows @ [r]) (length rows) then [row_entry (rows @ [r]) (length rows)]
        else [])"
proof -
  have 1: "filter (row_contributes (rows @ [r])) [0..<length rows]
           = filter (row_contributes rows) [0..<length rows]"
    by (rule filter_cong) (simp_all add: row_contributes_prefix)
  have 2: "map (row_entry (rows @ [r])) (filter (row_contributes rows) [0..<length rows])
           = map (row_entry rows) (filter (row_contributes rows) [0..<length rows])"
    by (rule map_cong) (simp_all add: row_entry_prefix)
  show ?thesis
    by (simp add: contributed_entries_def 1 2)
qed

lemma load_rows_contributed:
  "list_all (\<lambda>r. 6 \<le> length r) rows \<Longrightarrow>
     load_rows (None, []) rows = Inr (carried_main rows, dict_of (contributed_entries rows))"
proof (induction rows rule: rev_induct)
  case Nil
  then show ?case
    by (simp add: carried_main_Nil contributed_entries_def dict_of_def)
next
  case (snoc r rows)
  then have IH: "load_rows (None, []) rows = Inr (carried_main rows, dict_of (contributed_entries rows))"
    and r: "6 \<le> length r" by simp_all
  let ?cur = "carried_main (rows @ [r])"
  have cur: "?cur = (if clean_cell (r ! 1) \<noteq> [] then Some (clean_cell (r ! 1)) else carried_main rows)"
    by (rule carried_main_snoc)
  have ne: "\<And>c. ?cur = Some c \<Longrightarrow> c \<noteq> []" by (rule carried_main_nonempty)
  have "load_row (carried_main rows, dict_of (contributed_entries rows)) r
        = Inr (?cur, dict_of (contributed_entries (rows @ [r])))"
  proof (cases ?cur)
    case None
    then show ?thesis
      using r cur
      by (simp add: load_row_def Let_def contributed_entries_snoc row_contributes_def split: if_splits)
  next
    case (Some c)
    with ne have "c \<noteq> []" by simp
    with Some show ?thesis
      using r cur
      by (simp add: load_row_def Let_def contributed_entries_snoc row_contributes_def
            row_entry_def dict_of_snoc split: if_splits)
  qed
  then show ?case
    by (simp add: load_rows_append IH)
qed

lemma load_row_short: "length r < 6 \<Longrightarrow> load_row st r = Inl IndexError"
  by (simp add: load_row_def)

lemma load_row_long: "6 \<le> length r \<Longrightarrow> \<exists>st'. load_row st r = Inr st'"
  by (simp add: load_row_def Let_def split: option.splits)

lemma load_rows_short:
  "\<not> list_all (\<lambda>r. 6 \<le> length r) rows \<Longrightarrow> load_rows st rows = Inl IndexError"
proof (induction rows arbitrary: st)
  case Nil
  then show ?case by simp
next
  case (Cons r rows)
  show ?case
  proof (cases "6 \<le> length r")
    case True
    then obtain st' where "load_row st r = Inr st'" using load_row_long by blast
    moreover from True Cons.prems have "\<not> list_all (\<lambda>r. 6 \<le> length r) rows" by simp
    ultimately show ?thesis using Cons.IH by simp
  next
    case False
    then show ?thesis by (simp add: load_row_short)
  qed
qed



text \<open>
  Claim C7. \<open>load_classification_standards\<close> never returns an empty mapping: a mapping
  it returns has an entry, and a table none of whose rows contributes makes it raise
  (the ValueError for no rule loaded, or the IndexError of a table with fewer than six
  columns).
\<close>

theorem C7_empty_taxonomy_is_fatal:
  "(load_classification_standards rows = Inr mapping \<longrightarrow> mapping \<noteq> [])
   \<and> (contributed_entries rows = [] \<longrightarrow>
        load_classification_standards rows = Inl NoRulesLoaded
        \<or> load_classification_standards rows = Inl IndexError)"
proof
  show "load_classification_standards rows = Inr mapping \<longrightarrow> mapping \<noteq> []"
    by (auto simp: load_classification_standards_def split: sum.splits if_splits)
next
  show "contributed_entries rows = [] \<longrightarrow>
        load_classification_standards rows = Inl NoRulesLoaded
        \<or> load_classification_standards rows = Inl IndexError"
  proof
    assume e: "contributed_entries rows = []"
    show "load_classification_standards rows = Inl NoRulesLoaded
        \<or> load_classification_standards rows = Inl IndexError"
    proof (cases "list_all (\<lambda>r. 6 \<le> length r) rows")
      case True
      from load_rows_contributed [OF True] e show ?thesis
        by (simp add: load_classification_standards_def dict_of_def)
    next
      case False
      then show ?thesis
        by (simp add: load_classification_standards_def load_rows_short)
    qed
  qed
qed

theorem C7_witness:
  "load_classification_standards example_rows = Inr example_mapping \<and> example_mapping \<noteq> []
   \<and> contributed_entries
        [[ascii ''1'', ascii ''nan'', ascii ''Cabinet'', ascii ''cabinet'', ascii ''nan'', ascii ''nan'']]
       = []
   \<and> load_classification_standards
        [[ascii ''1'', ascii ''nan'', ascii ''Cabinet'', ascii ''cabinet'', ascii ''nan'', ascii ''nan'']]
       = Inl NoRulesLoaded"
proof -
  let ?rows = "[[ascii ''1'', ascii ''nan'', ascii ''Cabinet'', ascii ''cabinet'', ascii ''nan'', ascii ''nan'']]"
  have 1: "contributed_entries ?rows = []"
    by (simp add: contributed_entries_def row_contributes_def carried_main_def text_eval)
  have 2: "load_classification_standards ?rows \<noteq> Inl IndexError"
    by (simp add: load_classification_standards_def load_row_def Let_def text_eval)
  have 3: "example_mapping \<noteq> []"
    using C7_empty_taxonomy_is_fatal [of example_rows example_mapping] load_example by simp
  have 4: "load_classification_standards ?rows = Inl NoRulesLoaded"
    using C7_empty_taxonomy_is_fatal [of ?rows "[]"] 1 2 by blast
  show ?thesis using load_example 1 3 4 by simp
qed

section \<open>The scan for the answer\<close>




lemma findall_scan_some_open:
  "cls \<notin> set s \<Longrightarrow> findall_scan opn cls (Some acc) s = []"
  by (induction s arbitrary: acc) auto






lemmas scan_eval = findall_lazy_def select_json_part_def clean_content_def fence_def
  parse_response_def example_loads_def



section \<open>The retry loop and the failure counter\<close>

lemma call_deepseek_api_from_props:
  "call_deepseek_api_from mx loads remote prompt attempt w = (res, w') \<Longrightarrow>
     api_calls w \<le> api_calls w'
     \<and> api_calls w' - api_calls w \<le> mx - attempt
     \<and> api_calls w' - api_calls w \<le> max 1 (MAX_API_FAILURES - continuous_api_failures w)
     \<and> (\<forall>r. res = Inr (Some r) \<longrightarrow> continuous_api_failures w' = 0)
     \<and> (\<forall>e. res = Inl e \<longrightarrow>
            continuous_api_failures w' = continuous_api_failures w + (api_calls w' - api_calls w)
            \<and> (api_calls w' - api_calls w < mx - attempt \<longrightarrow>
                 MAX_API_FAILURES \<le> continuous_api_failures w'))
     \<and> (res = Inr None \<longrightarrow> w' = w \<and> mx \<le> attempt)
     \<and> (\<exists>bs. sleeps w' = sleeps w @ map Backoff bs)"
proof (induction mx loads remote prompt attempt w arbitrary: res w'
         rule: call_deepseek_api_from.induct)
  case (1 mx loads remote prompt attempt w)
  show ?case
  proof (cases "attempt < mx")
    case False
    with "1.prems" have "res = Inr None" "w' = w"
      by (simp_all add: call_deepseek_api_from.simps)
    with False show ?thesis by simp
  next
    case True
    let ?w1 = "w\<lparr>api_calls := api_calls w + 1\<rparr>"
    show ?thesis
    proof (cases "read_response loads (remote (api_calls w) prompt)")
      case (Inr r)
      with True "1.prems" have "res = Inr (Some (r(K_classification_source \<mapsto> PStr (ascii ''deepseek_api''))))"
        and "w' = ?w1\<lparr>continuous_api_failures := 0\<rparr>"
        by (simp_all add: call_deepseek_api_from.simps [of mx loads remote prompt attempt w] Let_def)
      with True show ?thesis by simp
    next
      case (Inl e)
      let ?w2 = "?w1\<lparr>continuous_api_failures := continuous_api_failures ?w1 + 1\<rparr>"
      show ?thesis
      proof (cases "MAX_API_FAILURES \<le> continuous_api_failures ?w2")
        case th: True
        with True Inl "1.prems" have "res = Inl e" "w' = ?w2"
          by (simp_all add: call_deepseek_api_from.simps [of mx loads remote prompt attempt w] Let_def)
        with True th show ?thesis by simp
      next
        case th: False
        show ?thesis
        proof (cases "attempt < mx - 1")
          case last: False
          with True Inl th "1.prems" have "res = Inl e" "w' = ?w2"
            by (simp_all add: call_deepseek_api_from.simps [of mx loads remote prompt attempt w] Let_def)
          with True th last show ?thesis by (auto simp: MAX_API_FAILURES_def)
        next
          case more: True
          let ?w3 = "?w2\<lparr>sleeps := sleeps ?w2 @ [Backoff (2 ^ attempt)]\<rparr>"
          from True Inl th more "1.prems"
          have rec: "call_deepseek_api_from mx loads remote prompt (attempt + 1) ?w3 = (res, w')"
            by (simp add: call_deepseek_api_from.simps [of mx loads remote prompt attempt w] Let_def)
          have IH: "api_calls ?w3 \<le> api_calls w'
     \<and> api_calls w' - api_calls ?w3 \<le> mx - (attempt + 1)
     \<and> api_calls w' - api_calls ?w3 \<le> max 1 (MAX_API_FAILURES - continuous_api_failures ?w3)
     \<and> (\<forall>r. res = Inr (Some r) \<longrightarrow> continuous_api_failures w' = 0)
     \<and> (\<forall>e. res = Inl e \<longrightarrow>
            continuous_api_failures w' = continuous_api_failures ?w3 + (api_calls w' - api_calls ?w3)
            \<and> (api_calls w' - api_calls ?w3 < mx - (attempt + 1) \<longrightarrow>
                 MAX_API_FAILURES \<le> continuous_api_failures w'))
     \<and> (res = Inr None \<longrightarrow> w' = ?w3 \<and> mx \<le> attempt + 1)
     \<and> (\<exists>bs. sleeps w' = sleeps ?w3 @ map Backoff bs)"
            by (rule "1.IH" [OF True refl refl Inl refl th more rec])
          from IH obtain bs where bs: "sleeps w' = sleeps ?w3 @ map Backoff bs" by blast
          then have "sleeps w' = sleeps w @ map Backoff (2 ^ attempt # bs)" by simp
          then have sl: "\<exists>bs. sleeps w' = sleeps w @ map Backoff bs" by blast
          from IH more have none: "res \<noteq> Inr None" by auto
          have wa: "api_calls ?w3 = Suc (api_calls w)"
            and wf: "continuous_api_failures ?w3 = Suc (continuous_api_failures w)"
            by simp_all
          note a = IH [THEN conjunct1]
          note b = IH [THEN conjunct2, THEN conjunct1]
          note c = IH [THEN conjunct2, THEN conjunct2, THEN conjunct1]
          note d = IH [THEN conjunct2, THEN conjunct2, THEN conjunct2, THEN conjunct1]
          note e = IH [THEN conjunct2, THEN conjunct2, THEN conjunct2, THEN conjunct2, THEN conjunct1]
          from th have f: "continuous_api_failures w < 4" by (simp add: MAX_API_FAILURES_def)
          have 1: "api_calls w \<le> api_calls w'" using a unfolding wa by arith
          have 2: "api_calls w' - api_calls w \<le> mx - attempt" using a b True unfolding wa by arith
          have 3: "api_calls w' - api_calls w \<le> max 1 (MAX_API_FAILURES - continuous_api_failures w)"
            using a c f unfolding MAX_API_FAILURES_def wa wf by arith
          have 4: "\<forall>e. res = Inl e \<longrightarrow>
            continuous_api_failures w' = continuous_api_failures w + (api_calls w' - api_calls w)
            \<and> (api_calls w' - api_calls w < mx - attempt \<longrightarrow>
                 MAX_API_FAILURES \<le> continuous_api_failures w')"
          proof (intro allI impI)
            fix x assume r: "res = Inl x"
            note e12 = e [THEN spec, THEN mp, OF r]
            note e1 = e12 [THEN conjunct1]
            note e2 = e12 [THEN conjunct2]
            have "continuous_api_failures w' = continuous_api_failures w + (api_calls w' - api_calls w)"
              using e1 a unfolding wa wf by arith
            moreover have "api_calls w' - api_calls w < mx - attempt \<longrightarrow>
                 MAX_API_FAILURES \<le> continuous_api_failures w'"
              using e2 a True unfolding MAX_API_FAILURES_def wa by arith
            ultimately show "continuous_api_failures w' = continuous_api_failures w + (api_calls w' - api_calls w)
            \<and> (api_calls w' - api_calls w < mx - attempt \<longrightarrow>
                 MAX_API_FAILURES \<le> continuous_api_failures w')" by blast
          qed
          from 1 2 3 d 4 none sl show ?thesis by blast
        qed
      qed
    qed
  qed
qed

lemma call_deepseek_api_from_first_attempt:
  assumes "attempt < mx"
    and "call_deepseek_api_from mx loads remote prompt attempt w = (res, w')"
  shows "api_calls w < api_calls w'"
proof (cases "read_response loads (remote (api_calls w) prompt)")
  case (Inr r)
  with assms have "w' = w\<lparr>api_calls := api_calls w + 1, continuous_api_failures := 0\<rparr>"
    by (simp add: call_deepseek_api_from.simps [of mx loads remote prompt attempt w] Let_def)
  then show ?thesis by simp
next
  case (Inl e)
  let ?w2 = "w\<lparr>api_calls := api_calls w + 1,
                continuous_api_failures := continuous_api_failures w + 1\<rparr>"
  let ?w3 = "?w2\<lparr>sleeps := sleeps ?w2 @ [Backoff (2 ^ attempt)]\<rparr>"
  show ?thesis
  proof (cases "\<not> MAX_API_FAILURES \<le> continuous_api_failures w + 1 \<and> attempt < mx - 1")
    case False
    with assms Inl have "w' = ?w2"
      by (auto simp: call_deepseek_api_from.simps [of mx loads remote prompt attempt w] Let_def
               split: if_splits)
    then show ?thesis by simp
  next
    case True
    with assms Inl
    have "call_deepseek_api_from mx loads remote prompt (attempt + 1) ?w3 = (res, w')"
      by (simp add: call_deepseek_api_from.simps [of mx loads remote prompt attempt w] Let_def)
    from call_deepseek_api_from_props [OF this, THEN conjunct1]
    show ?thesis by simp
  qed
qed

lemmas call_eval =
  call_deepseek_api_def call_deepseek_api_from.simps read_response_def example_service_def
  MAX_API_FAILURES_def Let_def

text \<open>
  Claim C3, as the code has it. A call of \<open>_call_deepseek_api\<close> that returns a result
  leaves the counter of consecutive failures at zero; a call that raises has added one
  to the counter for each of its attempts. An attempt that fails with the counter
  brought to five or more raises at once, so a call makes no more attempts than the
  retry budget and no more than the counter leaves before five (one attempt at least):
  a call that raises before its retry budget is used up leaves the counter at five or
  more. The first attempt of a call is made whatever the counter holds.
\<close>

theorem C3_failure_counter:
  assumes "call_deepseek_api max_retries loads remote prompt w = (res, w')"
  shows "(\<forall>r. res = Inr (Some r) \<longrightarrow> continuous_api_failures w' = 0)
     \<and> (\<forall>e. res = Inl e \<longrightarrow>
            continuous_api_failures w' = continuous_api_failures w + (api_calls w' - api_calls w)
            \<and> (api_calls w' - api_calls w < max_retries \<longrightarrow>
                 MAX_API_FAILURES \<le> continuous_api_failures w'))
     \<and> (0 < max_retries \<longrightarrow> api_calls w < api_calls w')
     \<and> api_calls w' - api_calls w \<le> max_retries
     \<and> api_calls w' - api_calls w \<le> max 1 (MAX_API_FAILURES - continuous_api_failures w)"
proof -
  from assms have f: "call_deepseek_api_from max_retries loads remote prompt 0 w = (res, w')"
    by (simp add: call_deepseek_api_def)
  have a: "0 < max_retries \<longrightarrow> api_calls w < api_calls w'"
    using call_deepseek_api_from_first_attempt [OF _ f] by blast
  note p = call_deepseek_api_from_props [OF f, unfolded diff_zero]
  note b = p [THEN conjunct2, THEN conjunct1]
  note c = p [THEN conjunct2, THEN conjunct2, THEN conjunct1]
  note d = p [THEN conjunct2, THEN conjunct2, THEN conjunct2, THEN conjunct1]
  note e = p [THEN conjunct2, THEN conjunct2, THEN conjunct2, THEN conjunct2, THEN conjunct1]
  from d e a b c show ?thesis by (intro conjI)
qed

theorem C3_witness:
  "call_deepseek_api 3 example_loads example_service []
     \<lparr>continuous_api_failures = 3, api_calls = 3, sleeps = []\<rparr>
   = (Inl ApiCallFailed, \<lparr>continuous_api_failures = 5, api_calls = 5, sleeps = [Backoff 1]\<rparr>)
   \<and> (5::nat) - 3 < 3 \<and> MAX_API_FAILURES \<le> 5"
proof -
  let ?w = "\<lparr>continuous_api_failures = 3, api_calls = 3, sleeps = []\<rparr>"
  let ?w' = "\<lparr>continuous_api_failures = 5, api_calls = 5, sleeps = [Backoff 1]\<rparr>"
  have 1: "call_deepseek_api 3 example_loads example_service [] ?w = (Inl ApiCallFailed, ?w')"
    by (simp add: call_eval)
  from C3_failure_counter [OF 1]
  have "MAX_API_FAILURES \<le> continuous_api_failures ?w'" by simp
  with 1 show ?thesis by simp
qed

text \<open>
  With a retry budget of three and a service whose first five calls fail: the first
  call raises after three attempts, the second after two, with the counter at five, and
  the third call makes its attempt, succeeds and sets the counter to zero.
\<close>

theorem C3_counterexample:
  "call_deepseek_api 3 example_loads example_service [] example_world
     = (Inl ApiCallFailed,
        \<lparr>continuous_api_failures = 3, api_calls = 3, sleeps = [Backoff 1, Backoff 2]\<rparr>)
   \<and> call_deepseek_api 3 example_loads example_service []
       \<lparr>continuous_api_failures = 3, api_calls = 3, sleeps = [Backoff 1, Backoff 2]\<rparr>
     = (Inl ApiCallFailed,
        \<lparr>continuous_api_failures = 5, api_calls = 5, sleeps = [Backoff 1, Backoff 2, Backoff 1]\<rparr>)
   \<and> call_deepseek_api 3 example_loads example_service []
       \<lparr>continuous_api_failures = 5, api_calls = 5, sleeps = [Backoff 1, Backoff 2, Backoff 1]\<rparr>
     = (Inr (Some [K_main_category \<mapsto> PStr (ascii ''plc''),
                   K_sub_category \<mapsto> PStr (ascii ''CABINET''),
                   K_classification_source \<mapsto> PStr (ascii ''deepseek_api'')]),
        \<lparr>continuous_api_failures = 0, api_calls = 6, sleeps = [Backoff 1, Backoff 2, Backoff 1]\<rparr>)"
proof (intro conjI)
  show "call_deepseek_api 3 example_loads example_service [] example_world
     = (Inl ApiCallFailed,
        \<lparr>continuous_api_failures = 3, api_calls = 3, sleeps = [Backoff 1, Backoff 2]\<rparr>)"
    by (simp add: call_eval example_world_def)
  show "call_deepseek_api 3 example_loads example_service []
       \<lparr>continuous_api_failures = 3, api_calls = 3, sleeps = [Backoff 1, Backoff 2]\<rparr>
     = (Inl ApiCallFailed,
        \<lparr>continuous_api_failures = 5, api_calls = 5, sleeps = [Backoff 1, Backoff 2, Backoff 1]\<rparr>)"
    by (simp add: call_eval)
  have p: "parse_response example_loads (ascii ''no: {no} yes: {ok}.'')
           = Some (PDict [K_main_category \<mapsto> PStr (ascii ''plc''),
                          K_sub_category \<mapsto> PStr (ascii ''CABINET'')])"
    by (simp add: scan_eval text_eval)
  have k: "[K_main_category \<mapsto> PStr (ascii ''plc''), K_sub_category \<mapsto> PStr (ascii ''CABINET'')]
             K_main_category \<noteq> None"
     "[K_main_category \<mapsto> PStr (ascii ''plc''), K_sub_category \<mapsto> PStr (ascii ''CABINET'')]
             K_sub_category \<noteq> None"
    by simp_all
  have c: "ascii ''no: {no} yes: {ok}.'' \<noteq> []" by (simp add: ascii_def)
  show "call_deepseek_api 3 example_loads example_service []
       \<lparr>continuous_api_failures = 5, api_calls = 5, sleeps = [Backoff 1, Backoff 2, Backoff 1]\<rparr>
     = (Inr (Some [K_main_category \<mapsto> PStr (ascii ''plc''),
                   K_sub_category \<mapsto> PStr (ascii ''CABINET''),
                   K_classification_source \<mapsto> PStr (ascii ''deepseek_api'')]),
        \<lparr>continuous_api_failures = 0, api_calls = 6, sleeps = [Backoff 1, Backoff 2, Backoff 1]\<rparr>)"
    using k c by (simp add: call_eval p)
qed

section \<open>The batch\<close>











end
